theory Spec2Isabelle
  imports Complex_Main "HOL-Library.Stream" "HOL-Library.Log_Nat"
begin

section \<open>Python values and exceptions\<close>

text \<open>
  The exceptions that the functions of \<^verbatim>\<open>gibbs_sampler.py\<close> can raise.  A function that
  may raise returns \<open>error + 'a\<close>, with \<open>Inl\<close> for the exception.
\<close>

datatype error = IndexError | ValueError | ZeroDivisionError | UnboundLocalError

text \<open>\<^verbatim>\<open>xs[i]\<close> for an index \<open>i \<ge> 0\<close>: out of range raises \<^verbatim>\<open>IndexError\<close>.\<close>

definition index_py :: "'a list \<Rightarrow> nat \<Rightarrow> error + 'a" where
  "index_py xs i = (if i < length xs then Inr (xs ! i) else Inl IndexError)"

section \<open>MotifScorer: \<^verbatim>\<open>score_motif\<close> and \<^verbatim>\<open>consensus\<close>\<close>

text \<open>
  Lines 109--118 of \<^verbatim>\<open>score_motif\<close> and, character for character, lines 138--147 of
  \<^verbatim>\<open>consensus\<close>: the loop \<^verbatim>\<open>for j in range(len(motif))\<close> that inspects \<^verbatim>\<open>motif[j][i]\<close> and
  increments one of the four counters.  A symbol outside A, C, G, T increments nothing;
  a motif with no position \<open>i\<close> raises \<^verbatim>\<open>IndexError\<close>.
\<close>

fun tally :: "string list \<Rightarrow> nat \<Rightarrow> nat list \<Rightarrow> error + nat list" where
  "tally [] i counts = Inr counts"
| "tally (m # ms) i counts =
     (case index_py m i of
        Inl e \<Rightarrow> Inl e
      | Inr c \<Rightarrow>
          tally ms i
            (if c = CHR ''A'' then counts[0 := counts ! 0 + 1]
             else if c = CHR ''C'' then counts[1 := counts ! 1 + 1]
             else if c = CHR ''G'' then counts[2 := counts ! 2 + 1]
             else if c = CHR ''T'' then counts[3 := counts ! 3 + 1]
             else counts))"

text \<open>
  Lines 119--127 (and 148--156): \<^verbatim>\<open>max_count = max(counts)\<close> followed by the
  \<^verbatim>\<open>if/elif\<close> chain that appends one symbol to the consensus string.  The chain has no
  \<^verbatim>\<open>else\<close>: were no comparison to succeed, nothing would be appended.
\<close>

definition majority :: "nat list \<Rightarrow> string \<Rightarrow> string" where
  "majority counts cons =
     (let max_count = Max (set counts) in
      if max_count = counts ! 0 then cons @ ''A''
      else if max_count = counts ! 1 then cons @ ''C''
      else if max_count = counts ! 2 then cons @ ''G''
      else if max_count = counts ! 3 then cons @ ''T''
      else cons)"

text \<open>
  Lines 128--130: \<^verbatim>\<open>for j in range(len(motif)): if motif[j][i] != consensus[i]: score += 1\<close>.
\<close>

fun mismatches :: "string list \<Rightarrow> nat \<Rightarrow> string \<Rightarrow> int \<Rightarrow> error + int" where
  "mismatches [] i cons score = Inr score"
| "mismatches (m # ms) i cons score =
     (case index_py m i of
        Inl e \<Rightarrow> Inl e
      | Inr c \<Rightarrow>
          (case index_py cons i of
             Inl e \<Rightarrow> Inl e
           | Inr d \<Rightarrow> mismatches ms i cons (if c \<noteq> d then score + 1 else score)))"

text \<open>
  The column loop of \<^verbatim>\<open>score_motif\<close>, \<^verbatim>\<open>for i in range(len(motif[0]))\<close>, with its two
  accumulators: the local consensus string and the score.
\<close>

fun score_columns :: "string list \<Rightarrow> nat list \<Rightarrow> string \<times> int \<Rightarrow> error + string \<times> int" where
  "score_columns motif [] st = Inr st"
| "score_columns motif (i # cols) (cons, score) =
     (case tally motif i [0, 0, 0, 0] of
        Inl e \<Rightarrow> Inl e
      | Inr counts \<Rightarrow>
          (let cons' = majority counts cons in
           case mismatches motif i cons' score of
             Inl e \<Rightarrow> Inl e
           | Inr score' \<Rightarrow> score_columns motif cols (cons', score')))"

text \<open>
  \<^verbatim>\<open>score_motif\<close> with its local variables made visible: the final state
  \<open>(consensus, score)\<close> of the function body.  \<^verbatim>\<open>motif[0]\<close> on an empty list raises
  \<^verbatim>\<open>IndexError\<close>.
\<close>

definition score_motif_locals :: "string list \<Rightarrow> error + string \<times> int" where
  "score_motif_locals motif =
     (case index_py motif 0 of
        Inl e \<Rightarrow> Inl e
      | Inr m0 \<Rightarrow> score_columns motif [0..<length m0] ('''', 0))"

text \<open>\<^verbatim>\<open>score_motif\<close> returns the score only.\<close>

definition score_motif :: "string list \<Rightarrow> error + int" where
  "score_motif motif =
     (case score_motif_locals motif of Inl e \<Rightarrow> Inl e | Inr (cons, score) \<Rightarrow> Inr score)"

text \<open>The column loop of the standalone \<^verbatim>\<open>consensus\<close> function (lines 137--156).\<close>

fun consensus_columns :: "string list \<Rightarrow> nat list \<Rightarrow> string \<Rightarrow> error + string" where
  "consensus_columns motifs [] cons = Inr cons"
| "consensus_columns motifs (i # cols) cons =
     (case tally motifs i [0, 0, 0, 0] of
        Inl e \<Rightarrow> Inl e
      | Inr counts \<Rightarrow> consensus_columns motifs cols (majority counts cons))"

definition consensus :: "string list \<Rightarrow> error + string" where
  "consensus motifs =
     (case index_py motifs 0 of
        Inl e \<Rightarrow> Inl e
      | Inr m0 \<Rightarrow> consensus_columns motifs [0..<length m0] '''')"

section \<open>The specification's vocabulary for columns\<close>

text \<open>
  The number of motifs of the set that carry the symbol \<open>s\<close> at position \<open>i\<close>, and the
  number that carry anything else.
\<close>

definition col_count :: "string list \<Rightarrow> nat \<Rightarrow> char \<Rightarrow> nat" where
  "col_count motifs i s = length (filter (\<lambda>m. m ! i = s) motifs)"

definition col_mismatch :: "string list \<Rightarrow> nat \<Rightarrow> char \<Rightarrow> nat" where
  "col_mismatch motifs i s = length (filter (\<lambda>m. m ! i \<noteq> s) motifs)"

text \<open>The fixed priority order of the four symbols.\<close>

definition priority :: string where
  "priority = ''ACGT''"

text \<open>
  \<open>s\<close> is the majority symbol of column \<open>i\<close> under the priority order: it is one of the
  four symbols, no symbol has a larger count, and every symbol before it in the priority
  order has a strictly smaller count.
\<close>

definition first_max :: "string list \<Rightarrow> nat \<Rightarrow> char \<Rightarrow> bool" where
  "first_max motifs i s \<longleftrightarrow>
     (\<exists>p<4. s = priority ! p \<and>
        (\<forall>q<4. col_count motifs i (priority ! q) \<le> col_count motifs i (priority ! p)) \<and>
        (\<forall>q<p. col_count motifs i (priority ! q) < col_count motifs i (priority ! p)))"

section \<open>Floating-point numbers\<close>

text \<open>
  Python's floats are IEEE 754 binary64 numbers.  A finite float is modelled by the
  rational number it denotes, and an arithmetic operation computes the exact rational
  result and rounds it to the nearest representable number, ties to even, as the
  hardware does.  \<open>round_even\<close> rounds a rational to the nearest integer, ties to even;
  \<open>expo x\<close> is the binary exponent of \<open>x > 0\<close> (the \<open>e\<close> with \<open>2\<^sup>e \<le> x < 2\<^sup>e\<^sup>+\<^sup>1\<close>); \<open>ulp x\<close>
  is the spacing of the floats around \<open>x\<close>: 52 fraction bits, and a smallest binade at
  exponent \<open>emin = -1022\<close>, below which the spacing stays \<open>2\<^sup>-\<^sup>1\<^sup>0\<^sup>7\<^sup>4\<close> (gradual underflow).
  Overflow to infinity and NaN are not modelled: the weights that the sampler
  computes from probabilities lie between 0 and the number of offsets.
\<close>

definition round_even :: "rat \<Rightarrow> int" where
  "round_even r =
     (let f = \<lfloor>r\<rfloor>; d = r - of_int f in
      if d < 1 / 2 then f else if 1 / 2 < d then f + 1 else if even f then f else f + 1)"

definition expo :: "rat \<Rightarrow> int" where
  "expo x =
     (let (a, b) = quotient_of x; e = bitlen a - bitlen b in
      if 2 powi e \<le> x then e else e - 1)"

definition emin :: int where
  "emin = - 1022"

definition ulp :: "rat \<Rightarrow> rat" where
  "ulp x = 2 powi (max (expo \<bar>x\<bar>) emin - 52)"

definition fl :: "rat \<Rightarrow> rat" where
  "fl x = of_int (round_even (x / ulp x)) * ulp x"

text \<open>
  The float operations of the program: \<^verbatim>\<open>x * y\<close>, \<^verbatim>\<open>x + y\<close>, and \<^verbatim>\<open>x / y\<close>, which raises
  \<^verbatim>\<open>ZeroDivisionError\<close> on a zero divisor.  An \<^verbatim>\<open>int\<close> operand is converted to the float of
  the same value first.
\<close>

definition fmul :: "rat \<Rightarrow> rat \<Rightarrow> rat" where
  "fmul x y = fl (x * y)"

definition fadd :: "rat \<Rightarrow> rat \<Rightarrow> rat" where
  "fadd x y = fl (x + y)"

definition fdiv :: "rat \<Rightarrow> rat \<Rightarrow> error + rat" where
  "fdiv x y = (if y = 0 then Inl ZeroDivisionError else Inr (fl (x / y)))"

text \<open>\<^verbatim>\<open>sum(xs)\<close>: starts from the integer 0 and adds the elements from left to right.\<close>

definition sum_py :: "rat list \<Rightarrow> rat" where
  "sum_py xs = foldl fadd 0 xs"

section \<open>ProfileBuilder: \<^verbatim>\<open>build_profile_matrix\<close>\<close>

text \<open>
  The elements of \<^verbatim>\<open>column\<close> are one-character strings, and the argument of
  \<^verbatim>\<open>column.count(j)\<close> is the integer loop variable \<open>j\<close>.  \<^verbatim>\<open>list.count\<close> counts the
  elements equal to its argument, and a Python string is never equal to an integer.
\<close>

datatype pyval = PyStr string | PyInt int

definition count_py :: "pyval list \<Rightarrow> pyval \<Rightarrow> nat" where
  "count_py xs v = length (filter (\<lambda>x. x = v) xs)"

text \<open>Line 78: \<^verbatim>\<open>column = [motif[i] for motif in motifs]\<close>.\<close>

fun column_of :: "string list \<Rightarrow> nat \<Rightarrow> error + pyval list" where
  "column_of [] i = Inr []"
| "column_of (motif # motifs) i =
     (case index_py motif i of
        Inl e \<Rightarrow> Inl e
      | Inr c \<Rightarrow>
          (case column_of motifs i of
             Inl e \<Rightarrow> Inl e
           | Inr column \<Rightarrow> Inr (PyStr [c] # column)))"

text \<open>
  Lines 79--80: \<^verbatim>\<open>for j in range(4): profile[i][j] = (column.count(j) + 1) / (len(motifs) + 4)\<close>,
  the true division of two integers, whose result is the float nearest to the quotient.
  The divisor is at least 4.
\<close>

definition profile_row :: "pyval list \<Rightarrow> nat \<Rightarrow> rat list" where
  "profile_row column m =
     map (\<lambda>j. fl (of_nat (count_py column (PyInt (int j)) + 1) / of_nat (m + 4))) [0..<4]"

fun profile_rows :: "string list \<Rightarrow> nat list \<Rightarrow> error + rat list list" where
  "profile_rows motifs [] = Inr []"
| "profile_rows motifs (i # cols) =
     (case column_of motifs i of
        Inl e \<Rightarrow> Inl e
      | Inr column \<Rightarrow>
          (case profile_rows motifs cols of
             Inl e \<Rightarrow> Inl e
           | Inr rows \<Rightarrow> Inr (profile_row column (length motifs) # rows)))"

definition build_profile_matrix :: "string list \<Rightarrow> error + rat list list" where
  "build_profile_matrix motifs =
     (case index_py motifs 0 of
        Inl e \<Rightarrow> Inl e
      | Inr m0 \<Rightarrow> profile_rows motifs [0..<length m0])"

text \<open>
  The cell that the specification describes, for comparison: the number of motifs with
  the symbol of column \<open>j\<close> at position \<open>i\<close>, plus one, over the number of motifs plus four.
\<close>

definition laplace_cell :: "string list \<Rightarrow> nat \<Rightarrow> nat \<Rightarrow> rat" where
  "laplace_cell motifs i j =
     fl (of_nat (col_count motifs i (priority ! j) + 1) / of_nat (length motifs + 4))"

section \<open>The random source\<close>

text \<open>
  The module-level generator of \<^verbatim>\<open>random\<close> is modelled by the stream of the raw natural
  numbers it will produce; drawing consumes the head of the stream.  \<^verbatim>\<open>random()\<close> returns a
  multiple of \<open>2\<^sup>-\<^sup>5\<^sup>3\<close> in \<open>[0, 1)\<close>, and \<^verbatim>\<open>randint(a, b)\<close> an integer of \<open>[a, b]\<close>, raising
  \<^verbatim>\<open>ValueError\<close> when the range is empty.  Every outcome of the two functions is the
  outcome on some stream.
\<close>

type_synonym rng = "nat stream"

definition random_py :: "rng \<Rightarrow> rat \<times> rng" where
  "random_py g = (of_nat (shd g mod 2 ^ 53) / 2 ^ 53, stl g)"

definition randint :: "int \<Rightarrow> int \<Rightarrow> rng \<Rightarrow> error + int \<times> rng" where
  "randint a b g =
     (if b < a then Inl ValueError
      else Inr (a + int (shd g mod nat (b - a + 1)), stl g))"

text \<open>
  \<^verbatim>\<open>random.choices(population, weights=...)[0]\<close> for a population \<^verbatim>\<open>range(n)\<close>, after the
  standard library: the cumulative weights are accumulated with float additions, an empty
  list has no last element, a total that is not positive is refused, and the index is found
  by bisection of the cumulative weights at \<^verbatim>\<open>random() * total\<close> between 0 and \<open>n - 1\<close>.
\<close>

fun accumulate_from :: "rat \<Rightarrow> rat list \<Rightarrow> rat list" where
  "accumulate_from acc [] = []"
| "accumulate_from acc (x # xs) = fadd acc x # accumulate_from (fadd acc x) xs"

fun accumulate :: "rat list \<Rightarrow> rat list" where
  "accumulate [] = []"
| "accumulate (x # xs) = x # accumulate_from x xs"

function bisect :: "rat list \<Rightarrow> rat \<Rightarrow> nat \<Rightarrow> nat \<Rightarrow> nat" where
  "bisect a x lo hi =
     (if lo < hi then
        (let mid = (lo + hi) div 2 in
         if x < a ! mid then bisect a x lo mid else bisect a x (mid + 1) hi)
      else lo)"
  by pat_completeness auto
termination
  by (relation "measure (\<lambda>(a, x, lo, hi). hi - lo)") auto

definition choices :: "nat \<Rightarrow> rat list \<Rightarrow> rng \<Rightarrow> error + nat \<times> rng" where
  "choices n weights g =
     (let cum_weights = accumulate weights in
      if length cum_weights \<noteq> n then Inl ValueError
      else if cum_weights = [] then Inl IndexError
      else
        (let tot = fadd (last cum_weights) 0 in
         if tot \<le> 0 then Inl ValueError
         else
           (let (u, g') = random_py g in
            Inr (bisect cum_weights (fmul u tot) 0 (n - 1), g'))))"

section \<open>KmerSampler: \<^verbatim>\<open>profile_randomly_generated_kmer\<close>\<close>

text \<open>\<^verbatim>\<open>xs[lo:hi]\<close>: a negative bound counts from the end, and both bounds are clamped.\<close>

definition clamp_index :: "int \<Rightarrow> nat \<Rightarrow> nat" where
  "clamp_index i n = (if i < 0 then nat (max (i + int n) 0) else min (nat i) n)"

definition slice_py :: "'a list \<Rightarrow> int \<Rightarrow> int \<Rightarrow> 'a list" where
  "slice_py xs lo hi =
     (let l = clamp_index lo (length xs); h = clamp_index hi (length xs) in
      take (h - l) (drop l xs))"

text \<open>\<^verbatim>\<open>range(n)\<close>, empty for \<open>n \<le> 0\<close>.\<close>

definition range_py :: "int \<Rightarrow> nat list" where
  "range_py n = [0..<nat n]"

text \<open>\<^verbatim>\<open>profile[j][s]\<close>.\<close>

definition cell :: "rat list list \<Rightarrow> nat \<Rightarrow> nat \<Rightarrow> error + rat" where
  "cell profile j s =
     (case index_py profile j of Inl e \<Rightarrow> Inl e | Inr row \<Rightarrow> index_py row s)"

text \<open>
  Lines 90--98, the loop \<^verbatim>\<open>for j in range(k)\<close> over the positions of one k-mer, with the
  running product \<^verbatim>\<open>prob\<close>.  A symbol outside A, C, G, T leaves the product unchanged.
\<close>

fun kmer_prob :: "string \<Rightarrow> rat list list \<Rightarrow> nat list \<Rightarrow> rat \<Rightarrow> error + rat" where
  "kmer_prob kmer profile [] prob = Inr prob"
| "kmer_prob kmer profile (j # js) prob =
     (case index_py kmer j of
        Inl e \<Rightarrow> Inl e
      | Inr c \<Rightarrow>
          (if c = CHR ''A'' then
             (case cell profile j 0 of
                Inl e \<Rightarrow> Inl e
              | Inr p \<Rightarrow> kmer_prob kmer profile js (fmul prob p))
           else if c = CHR ''C'' then
             (case cell profile j 1 of
                Inl e \<Rightarrow> Inl e
              | Inr p \<Rightarrow> kmer_prob kmer profile js (fmul prob p))
           else if c = CHR ''G'' then
             (case cell profile j 2 of
                Inl e \<Rightarrow> Inl e
              | Inr p \<Rightarrow> kmer_prob kmer profile js (fmul prob p))
           else if c = CHR ''T'' then
             (case cell profile j 3 of
                Inl e \<Rightarrow> Inl e
              | Inr p \<Rightarrow> kmer_prob kmer profile js (fmul prob p))
           else kmer_prob kmer profile js prob))"

text \<open>Lines 87--99, the loop \<^verbatim>\<open>for i in range(n - k + 1)\<close> over the offsets.\<close>

fun offset_probs :: "string \<Rightarrow> int \<Rightarrow> rat list list \<Rightarrow> nat list \<Rightarrow> error + rat list" where
  "offset_probs seq k profile [] = Inr []"
| "offset_probs seq k profile (i # offsets) =
     (case kmer_prob (slice_py seq (int i) (int i + k)) profile (range_py k) 1 of
        Inl e \<Rightarrow> Inl e
      | Inr prob \<Rightarrow>
          (case offset_probs seq k profile offsets of
             Inl e \<Rightarrow> Inl e
           | Inr probabilities \<Rightarrow> Inr (prob # probabilities)))"

text \<open>Line 100: \<^verbatim>\<open>[p/sum(probabilities) for p in probabilities]\<close>.\<close>

fun normalise :: "rat list \<Rightarrow> rat \<Rightarrow> error + rat list" where
  "normalise [] s = Inr []"
| "normalise (p # ps) s =
     (case fdiv p s of
        Inl e \<Rightarrow> Inl e
      | Inr w \<Rightarrow>
          (case normalise ps s of Inl e \<Rightarrow> Inl e | Inr ws \<Rightarrow> Inr (w # ws)))"

definition profile_randomly_generated_kmer ::
    "string \<Rightarrow> int \<Rightarrow> rat list list \<Rightarrow> rng \<Rightarrow> error + string \<times> rng" where
  "profile_randomly_generated_kmer seq k profile g =
     (let offsets = range_py (int (length seq) - k + 1) in
      case offset_probs seq k profile offsets of
        Inl e \<Rightarrow> Inl e
      | Inr probabilities \<Rightarrow>
          (case normalise probabilities (sum_py probabilities) of
             Inl e \<Rightarrow> Inl e
           | Inr weights \<Rightarrow>
               (case choices (length offsets) weights g of
                  Inl e \<Rightarrow> Inl e
                | Inr (i, g') \<Rightarrow> Inr (slice_py seq (int i) (int i + k), g'))))"

section \<open>GibbsSampler: \<^verbatim>\<open>gibbs_sampler\<close>\<close>

text \<open>
  Lines 40--43: one random offset per sequence, \<^verbatim>\<open>random.randint(0, len(seq) - k)\<close>, and the
  motif \<^verbatim>\<open>seq[i:i+k]\<close> there.
\<close>

fun initial_motifs :: "string list \<Rightarrow> int \<Rightarrow> rng \<Rightarrow> error + string list \<times> rng" where
  "initial_motifs [] k g = Inr ([], g)"
| "initial_motifs (seq # seqs) k g =
     (case randint 0 (int (length seq) - k) g of
        Inl e \<Rightarrow> Inl e
      | Inr (i, g') \<Rightarrow>
          (case initial_motifs seqs k g' of
             Inl e \<Rightarrow> Inl e
           | Inr (motifs, g'') \<Rightarrow> Inr (slice_py seq i (i + k) # motifs, g'')))"

text \<open>
  \<^verbatim>\<open>s.replace(old, new)\<close>: every occurrence of \<^verbatim>\<open>old\<close>, found from left to right without
  overlap, is replaced; an empty \<^verbatim>\<open>old\<close> matches before every character and at the end.
  The counter of \<open>replace_scan\<close> is the number of characters of the current occurrence
  still to be skipped.
\<close>

fun replace_scan :: "string \<Rightarrow> string \<Rightarrow> nat \<Rightarrow> string \<Rightarrow> string" where
  "replace_scan old new skip [] = []"
| "replace_scan old new (Suc n) (c # cs) = replace_scan old new n cs"
| "replace_scan old new 0 (c # cs) =
     (if take (length old) (c # cs) = old
      then new @ replace_scan old new (length old - 1) cs
      else c # replace_scan old new 0 cs)"

definition replace_py :: "string \<Rightarrow> string \<Rightarrow> string \<Rightarrow> string" where
  "replace_py s old new =
     (if old = [] then new @ concat (map (\<lambda>c. c # new) s) else replace_scan old new 0 s)"

text \<open>The ANSI escape sequences \<^verbatim>\<open>"\033[31m"\<close> and \<^verbatim>\<open>"\033[0m"\<close>.\<close>

definition ansi_red :: string where
  "ansi_red = CHR 0x1B # ''[31m''"

definition ansi_reset :: string where
  "ansi_reset = CHR 0x1B # ''[0m''"

text \<open>
  Lines 65--68: \<^verbatim>\<open>for i in range(len(best_motifs))\<close>, each sequence with the occurrences of
  its best motif wrapped in the two escape sequences.
\<close>

fun render :: "string list \<Rightarrow> string list \<Rightarrow> nat list \<Rightarrow> error + string list" where
  "render seqs best_motifs [] = Inr []"
| "render seqs best_motifs (i # is) =
     (case index_py seqs i of
        Inl e \<Rightarrow> Inl e
      | Inr seq \<Rightarrow>
          (case index_py best_motifs i of
             Inl e \<Rightarrow> Inl e
           | Inr m \<Rightarrow>
               (case render seqs best_motifs is of
                  Inl e \<Rightarrow> Inl e
                | Inr rest \<Rightarrow> Inr (replace_py seq m (ansi_red @ m @ ansi_reset) # rest))))"

text \<open>
  The local variables of \<^verbatim>\<open>gibbs_sampler\<close> and the generator.  \<^verbatim>\<open>gibbs_motifs\<close> and
  \<^verbatim>\<open>consensus_motif\<close> are assigned in the loop body only: before the first iteration they
  are unbound (\<open>None\<close>).
\<close>

record sampler_state =
  motifs :: "string list"
  best_motifs :: "string list"
  gibbs_motifs :: "string list option"
  consensus_motif :: "string option"
  gen :: rng

text \<open>One iteration of the loop \<^verbatim>\<open>for _ in range(N)\<close>, lines 48--70.\<close>

definition gibbs_iteration ::
    "string list \<Rightarrow> int \<Rightarrow> int \<Rightarrow> sampler_state \<Rightarrow> error + sampler_state" where
  "gibbs_iteration seqs k t s =
     (case randint 0 (t - 1) (gen s) of
        Inl e \<Rightarrow> Inl e
      | Inr (r, g1) \<Rightarrow>
     (let i = nat r in
      case index_py (motifs s) i of
        Inl e \<Rightarrow> Inl e
      | Inr motif_i \<Rightarrow>
     (let popped = take i (motifs s) @ drop (Suc i) (motifs s) in
      case build_profile_matrix popped of
        Inl e \<Rightarrow> Inl e
      | Inr profile \<Rightarrow>
     (case index_py seqs i of
        Inl e \<Rightarrow> Inl e
      | Inr seq \<Rightarrow>
     (case profile_randomly_generated_kmer seq k profile g1 of
        Inl e \<Rightarrow> Inl e
      | Inr (motif_i', g2) \<Rightarrow>
     (let motifs' = take i popped @ motif_i' # drop i popped in
      case score_motif motifs' of
        Inl e \<Rightarrow> Inl e
      | Inr score \<Rightarrow>
     (case score_motif (best_motifs s) of
        Inl e \<Rightarrow> Inl e
      | Inr best_score \<Rightarrow>
     (let best' = (if score < best_score then motifs' else best_motifs s) in
      case render seqs best' [0..<length best'] of
        Inl e \<Rightarrow> Inl e
      | Inr rendering \<Rightarrow>
     (case consensus best' of
        Inl e \<Rightarrow> Inl e
      | Inr cons \<Rightarrow>
          Inr \<lparr>motifs = motifs', best_motifs = best', gibbs_motifs = Some rendering,
               consensus_motif = Some cons, gen = g2\<rparr>)))))))))"

fun gibbs_loop ::
    "nat \<Rightarrow> string list \<Rightarrow> int \<Rightarrow> int \<Rightarrow> sampler_state \<Rightarrow> error + sampler_state" where
  "gibbs_loop 0 seqs k t s = Inr s"
| "gibbs_loop (Suc n) seqs k t s =
     (case gibbs_iteration seqs k t s of
        Inl e \<Rightarrow> Inl e
      | Inr s' \<Rightarrow> gibbs_loop n seqs k t s')"

text \<open>
  \<^verbatim>\<open>gibbs_sampler(dna, k, t, N)\<close>.  The returned tuple is evaluated from left to right:
  the score of the best set first, then the two variables of the loop body, whose use
  raises \<^verbatim>\<open>UnboundLocalError\<close> when no iteration has run.
\<close>

definition gibbs_sampler ::
    "string list \<Rightarrow> int \<Rightarrow> int \<Rightarrow> int \<Rightarrow> rng \<Rightarrow>
     error + (string list \<times> int \<times> string list \<times> string) \<times> rng" where
  "gibbs_sampler seqs k t N g =
     (case initial_motifs seqs k g of
        Inl e \<Rightarrow> Inl e
      | Inr (ms, g0) \<Rightarrow>
     (case gibbs_loop (nat N) seqs k t
             \<lparr>motifs = ms, best_motifs = ms, gibbs_motifs = None,
              consensus_motif = None, gen = g0\<rparr> of
        Inl e \<Rightarrow> Inl e
      | Inr s \<Rightarrow>
     (case score_motif (best_motifs s) of
        Inl e \<Rightarrow> Inl e
      | Inr score \<Rightarrow>
     (case gibbs_motifs s of
        None \<Rightarrow> Inl UnboundLocalError
      | Some rendering \<Rightarrow>
     (case consensus_motif s of
        None \<Rightarrow> Inl UnboundLocalError
      | Some cons \<Rightarrow> Inr ((best_motifs s, score, rendering, cons), gen s))))))"

section \<open>RestartDriver: \<^verbatim>\<open>RepeatGibbsMotSearch\<close>\<close>

text \<open>The module-level corpus.\<close>

definition dna :: "string list" where
  "dna = [''TTACCTTAAC'', ''GATGTCTGTC'', ''CCGGCGTTAG'', ''CACTAACGAG'', ''CGTCAGAGGT'']"

text \<open>\<^verbatim>\<open>str(i)\<close> for an integer, as the f-strings of the report need it.\<close>

fun digits :: "nat \<Rightarrow> string" where
  "digits n =
     (if n < 10 then [''0123456789'' ! n]
      else digits (n div 10) @ [''0123456789'' ! (n mod 10)])"

definition str_int :: "int \<Rightarrow> string" where
  "str_int i = (if i < 0 then CHR ''-'' # digits (nat (- i)) else digits (nat i))"

text \<open>
  The lists of one batch: the three lists that are reset at every outer iteration, and
  the module-level \<^verbatim>\<open>score_lst\<close>, which is never reset.
\<close>

record batch =
  motif_lst :: "string list list"
  score_lst :: "int list"
  all_gibs_motifs_lst :: "string list list"
  consensus_lst :: "string list"

text \<open>Lines 209--214: \<^verbatim>\<open>n_times\<close> runs of the sampler on the module-level corpus.\<close>

fun run_batch :: "nat \<Rightarrow> int \<Rightarrow> int \<Rightarrow> int \<Rightarrow> batch \<times> rng \<Rightarrow> error + batch \<times> rng" where
  "run_batch 0 k t N (b, g) = Inr (b, g)"
| "run_batch (Suc n) k t N (b, g) =
     (case gibbs_sampler dna k t N g of
        Inl e \<Rightarrow> Inl e
      | Inr ((motif, score, rendering, cons), g') \<Rightarrow>
          run_batch n k t N
            (\<lparr>motif_lst = motif_lst b @ [motif], score_lst = score_lst b @ [score],
              all_gibs_motifs_lst = all_gibs_motifs_lst b @ [rendering],
              consensus_lst = consensus_lst b @ [cons]\<rparr>, g'))"

text \<open>
  Lines 217--218: \<^verbatim>\<open>data\<close>, the triples sorted by score with a stable sort.  No later
  line of the function reads \<^verbatim>\<open>data\<close>.
\<close>

definition sorted_data :: "batch \<Rightarrow> (int \<times> string list \<times> string) list" where
  "sorted_data b =
     sort_key fst (zip (score_lst b) (zip (all_gibs_motifs_lst b) (consensus_lst b)))"

text \<open>
  Lines 220--226: the strings written to the report for one outer iteration, one list
  element per call of \<^verbatim>\<open>f.write\<close>.
\<close>

definition report_block :: "int \<Rightarrow> int \<Rightarrow> batch \<Rightarrow> error + string list" where
  "report_block N_iter N b =
     (case index_py (consensus_lst b) 0 of
        Inl e \<Rightarrow> Inl e
      | Inr cons \<Rightarrow>
     (case index_py (score_lst b) 0 of
        Inl e \<Rightarrow> Inl e
      | Inr score \<Rightarrow>
     (case index_py (all_gibs_motifs_lst b) 0 of
        Inl e \<Rightarrow> Inl e
      | Inr rendering \<Rightarrow>
          Inr ([''N = '' @ str_int (N_iter + 1) @ '' of '' @ str_int N @ [CHR 0x0A],
                ''Consensus: '' @ cons @ [CHR 0x0A],
                ''Score = '' @ str_int score @ '' '' @ [CHR 0x0A],
                ''Motifs found after iterations:'']
               @ map (\<lambda>m. m @ [CHR 0x0A]) rendering
               @ [replicate 46 CHR ''*'' @ [CHR 0x0A]]))))"

text \<open>
  The outer loop \<^verbatim>\<open>for N_iter in range(N)\<close>.  Its state is what survives an iteration: the
  strings written so far, the module-level \<^verbatim>\<open>score_lst\<close> and the generator.
\<close>

fun outer_loop ::
    "nat list \<Rightarrow> int \<Rightarrow> int \<Rightarrow> int \<Rightarrow> int \<Rightarrow> string list \<times> int list \<times> rng \<Rightarrow>
     error + string list \<times> int list \<times> rng" where
  "outer_loop [] k t N n_times st = Inr st"
| "outer_loop (N_iter # rest) k t N n_times (written, scores, g) =
     (case run_batch (nat n_times) k t N
             (\<lparr>motif_lst = [], score_lst = scores, all_gibs_motifs_lst = [],
               consensus_lst = []\<rparr>, g) of
        Inl e \<Rightarrow> Inl e
      | Inr (b, g') \<Rightarrow>
          (case report_block (int N_iter) N b of
             Inl e \<Rightarrow> Inl e
           | Inr block \<Rightarrow> outer_loop rest k t N n_times (written @ block, score_lst b, g')))"

text \<open>
  \<^verbatim>\<open>RepeatGibbsMotSearch(k, t, N, n_times)\<close>, started with the module-level \<^verbatim>\<open>score_lst\<close>
  holding \<open>scores\<close>: the content of the report, the final \<^verbatim>\<open>score_lst\<close> and the generator.
\<close>

definition RepeatGibbsMotSearch ::
    "int \<Rightarrow> int \<Rightarrow> int \<Rightarrow> int \<Rightarrow> int list \<Rightarrow> rng \<Rightarrow> error + string list \<times> int list \<times> rng" where
  "RepeatGibbsMotSearch k t N n_times scores g =
     outer_loop (range_py N) k t N n_times ([], scores, g)"

section \<open>Properties of the scorer\<close>

lemma tally_counts:
  "\<forall>m\<in>set ms. i < length m \<Longrightarrow>
   tally ms i [a, b, c, d] =
     Inr [a + col_count ms i CHR ''A'', b + col_count ms i CHR ''C'',
          c + col_count ms i CHR ''G'', d + col_count ms i CHR ''T'']"
  by (induction ms arbitrary: a b c d) (simp_all add: col_count_def index_py_def)

lemma all_less_four: "(\<forall>q<4::nat. P q) = (P 0 \<and> P 1 \<and> P 2 \<and> P 3)"
  by (auto simp: numeral_eq_Suc less_Suc_eq)

lemma majority_first_max:
  "\<exists>p<4. majority [a, b, c, d] cons = cons @ [priority ! p] \<and>
      (\<forall>q<4. [a, b, c, d] ! q \<le> [a, b, c, d] ! p) \<and>
      (\<forall>q<p. [a, b, c, d] ! q < [a, b, c, d] ! p)"
proof -
  consider "b \<le> a \<and> c \<le> a \<and> d \<le> a" | "a < b \<and> c \<le> b \<and> d \<le> b"
    | "a < c \<and> b < c \<and> d \<le> c" | "a < d \<and> b < d \<and> c < d"
    by linarith
  then show ?thesis
  proof cases
    case 1
    then show ?thesis
      by (intro exI[of _ 0]) (auto simp: majority_def priority_def all_less_four max_def)
  next
    case 2
    then show ?thesis
      by (intro exI[of _ 1]) (auto simp: majority_def priority_def all_less_four max_def)
  next
    case 3
    then show ?thesis
      by (intro exI[of _ 2])
        (auto simp: majority_def priority_def all_less_four max_def less_Suc_eq numeral_eq_Suc)
  next
    case 4
    then show ?thesis
      by (intro exI[of _ 3])
        (auto simp: majority_def priority_def all_less_four max_def less_Suc_eq numeral_eq_Suc)
  qed
qed

lemma column_majority:
  assumes "\<forall>m\<in>set ms. i < length m"
  shows "\<exists>counts s. tally ms i [0, 0, 0, 0] = Inr counts \<and>
           majority counts cons = cons @ [s] \<and> first_max ms i s"
proof -
  let ?cs = "[col_count ms i CHR ''A'', col_count ms i CHR ''C'',
              col_count ms i CHR ''G'', col_count ms i CHR ''T'']"
  have t: "tally ms i [0, 0, 0, 0] = Inr ?cs"
    using tally_counts[OF assms, of 0 0 0 0] by simp
  have nth: "\<And>q. q < 4 \<Longrightarrow> ?cs ! q = col_count ms i (priority ! q)"
    by (auto simp: priority_def numeral_eq_Suc less_Suc_eq)
  obtain p where p: "p < 4" "majority ?cs cons = cons @ [priority ! p]"
      "\<forall>q<4. ?cs ! q \<le> ?cs ! p" "\<forall>q<p. ?cs ! q < ?cs ! p"
    using majority_first_max by blast
  have "first_max ms i (priority ! p)"
    unfolding first_max_def
  proof (intro exI[of _ p] conjI allI impI)
    show "p < 4" by fact
    show "priority ! p = priority ! p" by simp
  next
    fix q :: nat assume "q < 4"
    then show "col_count ms i (priority ! q) \<le> col_count ms i (priority ! p)"
      using p(1,3) nth by metis
  next
    fix q assume "q < p"
    then have "q < 4" using p(1) by simp
    then show "col_count ms i (priority ! q) < col_count ms i (priority ! p)"
      using p(1,4) nth \<open>q < p\<close> by metis
  qed
  with t p(2) show ?thesis by blast
qed

lemma mismatches_count:
  "\<forall>m\<in>set ms. i < length m \<Longrightarrow> i < length cons \<Longrightarrow>
   mismatches ms i cons score = Inr (score + int (col_mismatch ms i (cons ! i)))"
  by (induction ms arbitrary: score) (simp_all add: col_mismatch_def index_py_def)

lemma columns_loop:
  assumes len: "\<forall>m\<in>set ms. length m = k"
  shows "a \<le> k \<Longrightarrow> length cons = a \<Longrightarrow>
     \<exists>c. score_columns ms [a..<k] (cons, score) =
            Inr (c, score + int (\<Sum>i\<leftarrow>[a..<k]. col_mismatch ms i (c ! i))) \<and>
         consensus_columns ms [a..<k] cons = Inr c \<and>
         length c = k \<and> take a c = cons \<and>
         (\<forall>i. a \<le> i \<and> i < k \<longrightarrow> first_max ms i (c ! i))"
proof (induction "k - a" arbitrary: a cons score)
  case 0
  then show ?case by auto
next
  case (Suc n)
  then have ak: "a < k" by simp
  then have upt: "[a..<k] = a # [Suc a..<k]" by (simp add: upt_conv_Cons)
  have inb: "\<forall>m\<in>set ms. a < length m" using len ak by simp
  obtain counts s where cs: "tally ms a [0, 0, 0, 0] = Inr counts"
      "majority counts cons = cons @ [s]" "first_max ms a s"
    using column_majority[OF inb] by blast
  let ?cons' = "cons @ [s]"
  have at: "?cons' ! a = s" using Suc.prems(2) by (simp add: nth_append)
  have mm: "mismatches ms a ?cons' score = Inr (score + int (col_mismatch ms a s))"
    using mismatches_count[OF inb, of ?cons' score] Suc.prems(2) at by simp
  have "n = k - Suc a" using Suc.hyps(2) by simp
  moreover have "Suc a \<le> k" using ak by simp
  moreover have "length ?cons' = Suc a" using Suc.prems(2) by simp
  ultimately obtain c where c:
      "score_columns ms [Suc a..<k] (?cons', score + int (col_mismatch ms a s)) =
         Inr (c, score + int (col_mismatch ms a s) + int (\<Sum>i\<leftarrow>[Suc a..<k]. col_mismatch ms i (c ! i)))"
      "consensus_columns ms [Suc a..<k] ?cons' = Inr c"
      "length c = k" "take (Suc a) c = ?cons'"
      "\<forall>i. Suc a \<le> i \<and> i < k \<longrightarrow> first_max ms i (c ! i)"
    using Suc.hyps(1)[of "Suc a" ?cons' "score + int (col_mismatch ms a s)"] by blast
  have ca: "c ! a = s"
  proof -
    have "c ! a = take (Suc a) c ! a" by simp
    then show ?thesis using c(4) at by simp
  qed
  have tk: "take a c = cons"
  proof -
    have "take a c = take a (take (Suc a) c)" by (simp add: min_def)
    then show ?thesis using c(4) Suc.prems(2) by simp
  qed
  have fm: "\<forall>i. a \<le> i \<and> i < k \<longrightarrow> first_max ms i (c ! i)"
  proof (intro allI impI)
    fix i assume "a \<le> i \<and> i < k"
    then consider "i = a" | "Suc a \<le> i \<and> i < k" by linarith
    then show "first_max ms i (c ! i)"
      using cs(3) ca c(5) by cases auto
  qed
  show ?case
    apply (rule exI[of _ c])
    using cs(1,2) mm c(1,2,3) ca tk fm upt by simp
qed

lemma scorer_characterisation:
  assumes ne: "ms \<noteq> []" and len: "\<forall>m\<in>set ms. length m = length (hd ms)"
  shows "\<exists>c. score_motif_locals ms =
            Inr (c, int (\<Sum>i\<leftarrow>[0..<length (hd ms)]. col_mismatch ms i (c ! i))) \<and>
         consensus ms = Inr c \<and> length c = length (hd ms) \<and>
         (\<forall>i<length (hd ms). first_max ms i (c ! i))"
proof -
  have h: "index_py ms 0 = Inr (hd ms)"
    using ne by (cases ms) (simp_all add: index_py_def)
  from columns_loop[OF len, of 0 "''''" 0] obtain c where
    "score_columns ms [0..<length (hd ms)] ('''', 0) =
       Inr (c, 0 + int (\<Sum>i\<leftarrow>[0..<length (hd ms)]. col_mismatch ms i (c ! i)))"
    "consensus_columns ms [0..<length (hd ms)] '''' = Inr c"
    "length c = length (hd ms)"
    "\<forall>i. 0 \<le> i \<and> i < length (hd ms) \<longrightarrow> first_max ms i (c ! i)"
    by auto
  then show ?thesis
    using h by (intro exI[of _ c]) (simp add: score_motif_locals_def consensus_def)
qed

lemma col_mismatch_zero: "col_mismatch ms i s = 0 \<longleftrightarrow> (\<forall>m\<in>set ms. m ! i = s)"
  by (auto simp: col_mismatch_def filter_empty_conv)

lemma col_count_full: "col_count ms i s = length ms \<longleftrightarrow> (\<forall>m\<in>set ms. m ! i = s)"
proof -
  have "length (filter (\<lambda>m. m ! i = s) ms) = length ms \<longleftrightarrow> filter (\<lambda>m. m ! i = s) ms = ms"
    by (metis length_filter_less less_irrefl filter_True)
  then show ?thesis by (simp add: col_count_def filter_id_conv)
qed

lemma col_count_le: "col_count ms i s \<le> length ms"
  by (simp add: col_count_def)

lemma in_priority: "c \<in> set priority \<Longrightarrow> \<exists>q<4. c = priority ! q"
  by (auto simp: priority_def intro: exI[of _ 0] exI[of _ 1] exI[of _ 2] exI[of _ 3])

lemma sum_list_nat_zero: "(\<Sum>i\<leftarrow>xs. (f i :: nat)) = 0 \<longleftrightarrow> (\<forall>i\<in>set xs. f i = 0)"
  by (induction xs) auto


section \<open>Properties of the float rounding\<close>

lemma round_even_of_int: "round_even (of_int n) = n"
  by (simp add: round_even_def)

lemma round_even_lower: "of_int a \<le> r \<Longrightarrow> a \<le> round_even r"
proof -
  assume "of_int a \<le> r"
  then have "a \<le> \<lfloor>r\<rfloor>" by (simp add: le_floor_iff)
  then show ?thesis by (auto simp: round_even_def Let_def)
qed

lemma round_even_upper: "r \<le> of_int b \<Longrightarrow> round_even r \<le> b"
proof -
  assume rb: "r \<le> of_int b"
  then have fb: "\<lfloor>r\<rfloor> \<le> b" by (simp add: floor_le_iff)
  show ?thesis
  proof (cases "\<lfloor>r\<rfloor> = b")
    case True
    then have "r - of_int \<lfloor>r\<rfloor> \<le> 0" using rb by simp
    then show ?thesis using True by (simp add: round_even_def Let_def)
  next
    case False
    then have "\<lfloor>r\<rfloor> + 1 \<le> b" using fb by simp
    then show ?thesis using fb by (auto simp: round_even_def Let_def)
  qed
qed

lemma bitlen_pos: "0 < a \<Longrightarrow> 1 \<le> bitlen a"
  using bitlen_eq_zero_iff[of a] bitlen_nonneg[of a] by linarith

lemma pow2_split: "(2::rat) powi (m + n) = 2 powi m * 2 powi n"
  by (rule power_int_add) simp

lemma bitlen_rat_bounds:
  assumes "0 < a"
  shows "(2::rat) powi (bitlen a - 1) \<le> of_int a" "of_int a < (2::rat) powi (bitlen a)"
proof -
  have la: "1 \<le> bitlen a" using assms by (rule bitlen_pos)
  have "2 ^ nat (bitlen a - 1) \<le> a" "a < 2 ^ nat (bitlen a)"
    using bitlen_bounds[OF assms] by auto
  then have "(of_int (2 ^ nat (bitlen a - 1)) :: rat) \<le> of_int a"
      "(of_int a :: rat) < of_int (2 ^ nat (bitlen a))"
    by (simp_all only: of_int_le_iff of_int_less_iff)
  then have "(2::rat) ^ nat (bitlen a - 1) \<le> of_int a" "of_int a < (2::rat) ^ nat (bitlen a)"
    by simp_all
  then show "(2::rat) powi (bitlen a - 1) \<le> of_int a" "of_int a < (2::rat) powi (bitlen a)"
    using la by (simp_all add: power_int_nonneg_exp)
qed

lemma expo_bounds:
  assumes "0 < x"
  shows "2 powi expo x \<le> x \<and> x < 2 powi (expo x + 1)"
proof -
  obtain a b where ab: "quotient_of x = (a, b)" by (cases "quotient_of x")
  then have b: "0 < b" using quotient_of_denom_pos by blast
  have x: "x = of_int a / of_int b" using ab by (simp add: quotient_of_div)
  then have a: "0 < a" using assms b by (simp add: zero_less_divide_iff)
  define e where "e = bitlen a - bitlen b"
  note A = bitlen_rat_bounds[OF a]
  note B = bitlen_rat_bounds[OF b]
  have bpos: "(0::rat) < of_int b" using b by simp
  have xb: "x * of_int b = of_int a" using x bpos by simp
  have up: "x < 2 powi (e + 1)"
  proof -
    have e1: "bitlen a = (e + 1) + (bitlen b - 1)" by (simp add: e_def)
    have "x * of_int b < 2 powi (bitlen a)" using A(2) xb by simp
    also have "\<dots> = 2 powi (e + 1) * 2 powi (bitlen b - 1)"
      by (subst e1) (rule pow2_split)
    also have "\<dots> \<le> 2 powi (e + 1) * of_int b"
      using B(1) by (intro mult_left_mono) simp_all
    finally show ?thesis using bpos by simp
  qed
  have low: "2 powi (e - 1) < x"
  proof -
    have e1: "bitlen a - 1 = (e - 1) + bitlen b" by (simp add: e_def)
    have "(2::rat) powi (e - 1) * of_int b < 2 powi (e - 1) * 2 powi (bitlen b)"
      using B(2) by (intro mult_strict_left_mono) simp_all
    also have "\<dots> = 2 powi (bitlen a - 1)"
      unfolding e1 by (rule pow2_split[symmetric])
    also have "\<dots> \<le> x * of_int b" using A(1) xb by simp
    finally show ?thesis using bpos by simp
  qed
  show ?thesis
  proof (cases "2 powi e \<le> x")
    case True
    then have "expo x = e" using ab by (simp add: expo_def e_def)
    then show ?thesis using True up by simp
  next
    case False
    then have "expo x = e - 1" using ab by (simp add: expo_def e_def)
    then show ?thesis using False low by simp
  qed
qed

lemma pow2_less_imp: "(2::rat) powi m < 2 powi n \<Longrightarrow> m < n"
proof (rule ccontr)
  assume a: "(2::rat) powi m < 2 powi n" and "\<not> m < n"
  then have "n \<le> m" by simp
  then have "(2::rat) powi n \<le> 2 powi m" by (intro power_int_increasing) simp_all
  with a show False by simp
qed

lemma pow2_le_imp: "(2::rat) powi m \<le> 2 powi n \<Longrightarrow> m \<le> n"
proof (rule ccontr)
  assume a: "(2::rat) powi m \<le> 2 powi n" and "\<not> m \<le> n"
  then have "n < m" by simp
  then have "(2::rat) powi n < 2 powi m" by (intro power_int_strict_increasing) simp_all
  with a show False by simp
qed

lemma expo_unique:
  assumes "0 < x" "2 powi e \<le> x" "x < 2 powi (e + 1)"
  shows "expo x = e"
proof -
  have b: "2 powi expo x \<le> x" "x < 2 powi (expo x + 1)" using expo_bounds[OF assms(1)] by auto
  have "(2::rat) powi e < 2 powi (expo x + 1)" using assms(2) b(2) by simp
  then have "e < expo x + 1" by (rule pow2_less_imp)
  moreover have "(2::rat) powi expo x < 2 powi (e + 1)" using assms(3) b(1) by simp
  then have "expo x < e + 1" by (rule pow2_less_imp)
  ultimately show ?thesis by simp
qed

lemma ulp_pos: "0 < ulp x"
  by (simp add: ulp_def)

lemma ulp_of_expo: "0 < y \<Longrightarrow> expo y = e \<Longrightarrow> ulp y = 2 powi (max e emin - 52)"
  by (simp add: ulp_def)

lemma quantum_scale:
  fixes E :: int
  defines "q \<equiv> (2::rat) powi (E - 52)"
  shows "2 powi E = of_int (2 ^ 52) * q" "2 powi (E + 1) = of_int (2 ^ 53) * q"
proof -
  have "E = 52 + (E - 52)" by simp
  then have "(2::rat) powi E = 2 powi (52 + (E - 52))" by (rule arg_cong)
  also have "\<dots> = 2 powi 52 * q" unfolding q_def by (rule pow2_split)
  finally show "2 powi E = of_int (2 ^ 52) * q" by simp
  have "E + 1 = 53 + (E - 52)" by simp
  then have "(2::rat) powi (E + 1) = 2 powi (53 + (E - 52))" by (rule arg_cong)
  also have "\<dots> = 2 powi 53 * q" unfolding q_def by (rule pow2_split)
  finally show "2 powi (E + 1) = of_int (2 ^ 53) * q" by simp
qed

lemma fl_zero: "fl 0 = 0"
  by (simp add: fl_def round_even_def)

lemma fl_nonneg: "0 \<le> x \<Longrightarrow> 0 \<le> fl x"
proof -
  assume "0 \<le> x"
  then have "of_int 0 \<le> x / ulp x" using ulp_pos[of x] by simp
  then have "0 \<le> round_even (x / ulp x)" by (rule round_even_lower)
  then show ?thesis using ulp_pos[of x] by (simp add: fl_def)
qed

lemma fl_on_grid:
  assumes "0 < n" "ulp (of_int n * q) = q"
  shows "fl (of_int n * q) = of_int n * q"
proof -
  have "q \<noteq> 0" using assms(2) ulp_pos[of "of_int n * q"] by simp
  then have "of_int n * q / q = of_int n" by simp
  then show ?thesis using assms(2) by (simp add: fl_def round_even_of_int)
qed

lemma fl_idem_pos:
  assumes "0 < x"
  shows "fl (fl x) = fl x"
proof -
  define E where "E = max (expo x) emin"
  define q where "q = (2::rat) powi (E - 52)"
  define n where "n = round_even (x / q)"
  have ux: "ulp x = q" using assms by (simp add: ulp_def E_def q_def)
  have flx: "fl x = of_int n * q" by (simp add: fl_def ux n_def)
  have qpos: "0 < q" by (simp add: q_def)
  have sc: "2 powi E = of_int (2 ^ 52) * q" "2 powi (E + 1) = of_int (2 ^ 53) * q"
    unfolding q_def by (rule quantum_scale)+
  have "of_int 0 \<le> x / q" using assms qpos by simp
  then have n0: "0 \<le> n" unfolding n_def by (rule round_even_lower)
  have "fl (of_int n * q) = of_int n * q"
  proof (cases "n = 0")
    case True
    then show ?thesis by (simp add: fl_zero)
  next
    case False
    then have npos: "0 < n" using n0 by simp
    have ypos: "0 < of_int n * q" using npos qpos by simp
    show ?thesis
    proof (cases "emin \<le> expo x")
      case True
      then have E: "E = expo x" by (simp add: E_def)
      have xb: "2 powi E \<le> x" "x < 2 powi (E + 1)" using expo_bounds[OF assms] E by auto
      have lo: "of_int (2 ^ 52) \<le> x / q"
        using xb(1) sc(1) qpos by (simp only: pos_le_divide_eq)
      have "x < of_int (2 ^ 53) * q" using xb(2) sc(2) by simp
      then have "x / q < of_int (2 ^ 53)" using qpos by (simp only: pos_divide_less_eq)
      then have hi: "x / q \<le> of_int (2 ^ 53)" by simp
      have nlo: "2 ^ 52 \<le> n" unfolding n_def using lo by (rule round_even_lower)
      have nhi: "n \<le> 2 ^ 53" unfolding n_def using hi by (rule round_even_upper)
      show ?thesis
      proof (cases "n = 2 ^ 53")
        case top: True
        define q' where "q' = (2::rat) powi ((E + 1) - 52)"
        have y: "of_int n * q = 2 powi (E + 1)" using top sc(2) by simp
        have sc': "2 powi (E + 1) = of_int (2 ^ 52) * q'"
          unfolding q'_def by (rule quantum_scale(1))
        have "(2::rat) powi (E + 1) < 2 powi (E + 1 + 1)"
          by (intro power_int_strict_increasing) simp_all
        then have "expo ((2::rat) powi (E + 1)) = E + 1"
          by (intro expo_unique) simp_all
        moreover have "max (E + 1) emin = E + 1" using True E by simp
        ultimately have "ulp (2 powi (E + 1)) = q'"
          using ulp_of_expo[of "2 powi (E + 1)" "E + 1"] by (simp add: q'_def)
        then have "ulp (of_int (2 ^ 52) * q') = q'" using sc' by simp
        then have "fl (of_int (2 ^ 52) * q') = of_int (2 ^ 52) * q'"
          by (intro fl_on_grid) simp_all
        then show ?thesis using y sc' by simp
      next
        case False
        then have nlt: "n < 2 ^ 53" using nhi by simp
        have "of_int (2 ^ 52) * q \<le> of_int n * q"
          using nlo qpos by (intro mult_right_mono) (simp_all only: of_int_le_iff)
        then have l: "2 powi E \<le> of_int n * q" using sc(1) by simp
        have "of_int n * q < of_int (2 ^ 53) * q"
          using nlt qpos by (intro mult_strict_right_mono) (simp_all only: of_int_less_iff)
        then have u: "of_int n * q < 2 powi (E + 1)" using sc(2) by simp
        have "expo (of_int n * q) = E" using ypos l u by (rule expo_unique)
        with ypos have "ulp (of_int n * q) = 2 powi (max E emin - 52)" by (rule ulp_of_expo)
        moreover have "max E emin = E" using True E by simp
        ultimately have "ulp (of_int n * q) = q" by (simp add: q_def)
        then show ?thesis using npos by (intro fl_on_grid)
      qed
    next
      case False
      then have E: "E = emin" by (simp add: E_def)
      have "expo x + 1 \<le> emin" using False by simp
      then have "(2::rat) powi (expo x + 1) \<le> 2 powi emin"
        by (intro power_int_increasing) simp_all
      then have "x < 2 powi E" using expo_bounds[OF assms] E by simp
      then have "x < of_int (2 ^ 52) * q" using sc(1) by simp
      then have "x / q < of_int (2 ^ 52)" using qpos by (simp only: pos_divide_less_eq)
      then have hi: "x / q \<le> of_int (2 ^ 52)" by simp
      have nhi: "n \<le> 2 ^ 52" unfolding n_def using hi by (rule round_even_upper)
      have "of_int n * q \<le> of_int (2 ^ 52) * q"
        using nhi qpos by (intro mult_right_mono) (simp_all only: of_int_le_iff)
      then have u: "of_int n * q \<le> 2 powi emin" using sc(1) E by simp
      have "2 powi expo (of_int n * q) \<le> of_int n * q"
        using expo_bounds[OF ypos] by simp
      then have "(2::rat) powi expo (of_int n * q) \<le> 2 powi emin" using u by simp
      then have "expo (of_int n * q) \<le> emin" by (rule pow2_le_imp)
      then have "max (expo (of_int n * q)) emin = emin" by simp
      moreover have "ulp (of_int n * q) = 2 powi (max (expo (of_int n * q)) emin - 52)"
        using ypos refl by (rule ulp_of_expo)
      ultimately have "ulp (of_int n * q) = q" by (simp add: q_def E)
      then show ?thesis using npos by (intro fl_on_grid)
    qed
  qed
  then show ?thesis using flx by simp
qed

lemma fl_idem: "0 \<le> x \<Longrightarrow> fl (fl x) = fl x"
  using fl_idem_pos[of x] fl_zero by (cases "x = 0") simp_all

lemma fl_pow2:
  assumes "emin - 52 \<le> e"
  shows "fl (2 powi e) = 2 powi e"
proof -
  define E where "E = max e emin"
  define q where "q = (2::rat) powi (E - 52)"
  define d where "d = nat (e - (E - 52))"
  have d: "int d = e - (E - 52)" using assms by (simp add: d_def E_def)
  have "e = int d + (E - 52)" using d by simp
  then have "(2::rat) powi e = 2 powi (int d + (E - 52))" by (rule arg_cong)
  also have "\<dots> = 2 powi (int d) * q" unfolding q_def by (rule pow2_split)
  finally have sp: "(2::rat) powi e = of_int (2 ^ d) * q" by simp
  have "(2::rat) powi e < 2 powi (e + 1)"
    by (intro power_int_strict_increasing) simp_all
  then have "expo ((2::rat) powi e) = e" by (intro expo_unique) simp_all
  then have "ulp (2 powi e) = 2 powi (max e emin - 52)"
    by (intro ulp_of_expo) simp_all
  then have "ulp (of_int (2 ^ d) * q) = q" using sp by (simp add: q_def E_def)
  then have "fl (of_int (2 ^ d) * q) = of_int (2 ^ d) * q"
    by (intro fl_on_grid) simp_all
  then show ?thesis using sp by simp
qed

lemma fl_one: "fl 1 = 1"
  using fl_pow2[of 0] by (simp add: emin_def)

lemma round_even_small: "0 \<le> r \<Longrightarrow> r < 1 / 2 \<Longrightarrow> round_even r = 0"
proof -
  assume a: "0 \<le> r" "r < 1 / 2"
  then have "\<lfloor>r\<rfloor> = 0" by (intro floor_unique) simp_all
  then show ?thesis using a by (simp add: round_even_def)
qed

lemma fl_underflow:
  assumes "0 \<le> x" "x < 2 powi (emin - 53)"
  shows "fl x = 0"
proof (cases "x = 0")
  case True
  then show ?thesis by (simp add: fl_zero)
next
  case False
  then have pos: "0 < x" using assms(1) by simp
  have "2 powi expo x \<le> x" using expo_bounds[OF pos] by simp
  then have "(2::rat) powi expo x < 2 powi (emin - 53)" using assms(2) by simp
  then have "expo x < emin - 53" by (rule pow2_less_imp)
  then have "max (expo x) emin = emin" by simp
  then have u: "ulp x = 2 powi (emin - 52)" using pos by (simp add: ulp_def)
  have "emin - 52 = 1 + (emin - 53)" by simp
  then have "(2::rat) powi (emin - 52) = 2 powi (1 + (emin - 53))" by (rule arg_cong)
  also have "\<dots> = 2 powi 1 * 2 powi (emin - 53)" by (rule pow2_split)
  finally have q: "(2::rat) powi (emin - 52) = 2 * 2 powi (emin - 53)" by simp
  have qpos: "(0::rat) < 2 powi (emin - 53)" by simp
  have "x / (2 * 2 powi (emin - 53)) < 1 / 2"
    using assms(2) qpos by (simp add: field_simps)
  moreover have "0 \<le> x / (2 * 2 powi (emin - 53))" using assms(1) by simp
  ultimately have "round_even (x / (2 * 2 powi (emin - 53))) = 0"
    by (intro round_even_small)
  then show ?thesis by (simp add: fl_def u q)
qed

lemma fl_half: "fl (1/2) = 1/2"
  using fl_pow2[of "-1"] by (simp add: emin_def)

section \<open>Worked examples of the scorer\<close>

text \<open>
  Claim C3, as stated: for the motif set \<^verbatim>\<open>["AACC", "CCAA"]\<close> the consensus is
  \<^verbatim>\<open>"AACC"\<close> and the score is 2.  The code does not compute this: the claim is false.
\<close>

theorem C3_counterexample:
  "\<not> (consensus [''AACC'', ''CCAA''] = Inr ''AACC'' \<and> score_motif [''AACC'', ''CCAA''] = Inr 2)"
  by (simp add: consensus_def index_py_def majority_def upt_conv_Cons)

text \<open>
  Claim C3, amended: every one of the four columns of \<^verbatim>\<open>["AACC", "CCAA"]\<close> holds one A
  and one C, the tie goes to A in every column, so the consensus is \<^verbatim>\<open>"AAAA"\<close>, and
  each column contributes one mismatch, so the score is 4.
\<close>

theorem C3_tie_example:
  "consensus [''AACC'', ''CCAA''] = Inr ''AAAA'' \<and> score_motif [''AACC'', ''CCAA''] = Inr 4"
  by (simp add: consensus_def score_motif_def score_motif_locals_def index_py_def majority_def
      upt_conv_Cons)

text \<open>
  Claim C7: for every non-empty set of equal-length motifs the consensus has one symbol
  per column, and that symbol is the first one, in the priority order A, C, G, T, whose
  count in the column is maximal: no symbol has a larger count and every symbol before it
  has a strictly smaller one.  In particular the counts 2, 2, 0, 0 yield the symbol A.
  (The symbols of the motifs need not be restricted to A, C, G, T for this.)
\<close>

theorem consensus_first_max:
  assumes ne: "ms \<noteq> []"
    and len: "\<forall>m\<in>set ms. length m = length (hd ms)"
  shows "(\<exists>c. consensus ms = Inr c \<and> length c = length (hd ms) \<and>
            (\<forall>i<length (hd ms). first_max ms i (c ! i))) \<and>
         majority [2, 2, 0, 0] '''' = ''A''"
proof -
  have "majority [2, 2, 0, 0] '''' = ''A''" by (simp add: majority_def)
  then show ?thesis using scorer_characterisation[OF ne len] by blast
qed

theorem consensus_first_max_witness:
  "\<exists>c. consensus [''AG'', ''CG'', ''CT'', ''AT''] = Inr c \<and> length c = 2 \<and>
       (\<forall>i<2. first_max [''AG'', ''CG'', ''CT'', ''AT''] i (c ! i))"
  using consensus_first_max[of "[''AG'', ''CG'', ''CT'', ''AT'']"] by (simp add: numeral_2_eq_2)

text \<open>
  Claim C8: for every non-empty set of equal-length motifs over A, C, G, T,
  \<^verbatim>\<open>score_motif\<close> returns a score, the score is not negative, and it is 0 exactly when
  every motif equals the first one, that is, when all motifs are identical.  The set of
  three copies of \<^verbatim>\<open>"AAAA"\<close> has score 0 and consensus \<^verbatim>\<open>"AAAA"\<close>.
\<close>

theorem score_zero_iff_identical:
  assumes ne: "ms \<noteq> []"
    and len: "\<forall>m\<in>set ms. length m = length (hd ms)"
    and acgt: "\<forall>m\<in>set ms. set m \<subseteq> set priority"
  shows "(\<exists>s. score_motif ms = Inr s \<and> 0 \<le> s \<and>
            (s = 0 \<longleftrightarrow> (\<forall>m\<in>set ms. m = hd ms))) \<and>
         score_motif [''AAAA'', ''AAAA'', ''AAAA''] = Inr 0 \<and>
         consensus [''AAAA'', ''AAAA'', ''AAAA''] = Inr ''AAAA''"
proof -
  let ?k = "length (hd ms)"
  obtain c where c:
      "score_motif_locals ms = Inr (c, int (\<Sum>i\<leftarrow>[0..<?k]. col_mismatch ms i (c ! i)))"
      "length c = ?k" "\<forall>i<?k. first_max ms i (c ! i)"
    using scorer_characterisation[OF ne len] by blast
  let ?s = "int (\<Sum>i\<leftarrow>[0..<?k]. col_mismatch ms i (c ! i))"
  have sc: "score_motif ms = Inr ?s" using c(1) by (simp add: score_motif_def)
  have zero: "?s = 0 \<longleftrightarrow> (\<forall>i<?k. \<forall>m\<in>set ms. m ! i = c ! i)"
    by (auto simp: sum_list_nat_zero col_mismatch_zero)
  have "(\<forall>i<?k. \<forall>m\<in>set ms. m ! i = c ! i) \<longleftrightarrow> (\<forall>m\<in>set ms. m = hd ms)"
  proof
    assume a: "\<forall>i<?k. \<forall>m\<in>set ms. m ! i = c ! i"
    have "\<And>m. m \<in> set ms \<Longrightarrow> m = c"
      using a len c(2) by (intro nth_equalityI) auto
    moreover have "hd ms \<in> set ms" using ne by simp
    ultimately show "\<forall>m\<in>set ms. m = hd ms" by metis
  next
    assume same: "\<forall>m\<in>set ms. m = hd ms"
    have hdin: "hd ms \<in> set ms" using ne by simp
    show "\<forall>i<?k. \<forall>m\<in>set ms. m ! i = c ! i"
    proof (intro allI impI)
      fix i assume i: "i < ?k"
      have "hd ms ! i \<in> set priority" using acgt hdin i by (meson nth_mem subsetD)
      then obtain q where q: "q < 4" "hd ms ! i = priority ! q" using in_priority by blast
      have full: "col_count ms i (priority ! q) = length ms"
        using same q(2) by (metis col_count_full)
      obtain p where p: "c ! i = priority ! p"
          "\<forall>q<4. col_count ms i (priority ! q) \<le> col_count ms i (priority ! p)"
        using c(3) i unfolding first_max_def by blast
      have "length ms \<le> col_count ms i (c ! i)" using p q(1) full by metis
      then have "col_count ms i (c ! i) = length ms"
        using col_count_le[of ms i "c ! i"] by simp
      then show "\<forall>m\<in>set ms. m ! i = c ! i" by (simp add: col_count_full)
    qed
  qed
  with zero have "?s = 0 \<longleftrightarrow> (\<forall>m\<in>set ms. m = hd ms)" by simp
  moreover have "0 \<le> ?s" by simp
  ultimately have "\<exists>s. score_motif ms = Inr s \<and> 0 \<le> s \<and>
            (s = 0 \<longleftrightarrow> (\<forall>m\<in>set ms. m = hd ms))"
    using sc by blast
  moreover have "score_motif [''AAAA'', ''AAAA'', ''AAAA''] = Inr 0"
    by (simp add: score_motif_def score_motif_locals_def index_py_def majority_def upt_conv_Cons)
  moreover have "consensus [''AAAA'', ''AAAA'', ''AAAA''] = Inr ''AAAA''"
    by (simp add: consensus_def index_py_def majority_def upt_conv_Cons)
  ultimately show ?thesis by blast
qed

theorem score_zero_iff_identical_witness:
  "(\<exists>s. score_motif [''ACGT'', ''ACGA''] = Inr s \<and> 0 \<le> s \<and> s \<noteq> 0) \<and>
   (\<exists>s. score_motif [''ACGT'', ''ACGT''] = Inr s \<and> s = 0)"
  using score_zero_iff_identical[of "[''ACGT'', ''ACGA'']"]
    score_zero_iff_identical[of "[''ACGT'', ''ACGT'']"]
  by (simp add: priority_def)

text \<open>
  Claim C10: for every non-empty list of equal-length motifs, the consensus string that
  \<^verbatim>\<open>score_motif\<close> accumulates in its local variable is the string that the standalone
  function \<^verbatim>\<open>consensus\<close> returns, and both computations succeed.
\<close>

theorem score_motif_consensus_agree:
  assumes ne: "ms \<noteq> []"
    and len: "\<forall>m\<in>set ms. length m = length (hd ms)"
  shows "\<exists>c score. score_motif_locals ms = Inr (c, score) \<and> consensus ms = Inr c"
  using scorer_characterisation[OF ne len] by blast

theorem score_motif_consensus_agree_witness:
  "\<exists>c score. score_motif_locals [''AG'', ''CG'', ''CT''] = Inr (c, score) \<and>
      consensus [''AG'', ''CG'', ''CT''] = Inr c"
  using score_motif_consensus_agree[of "[''AG'', ''CG'', ''CT'']"] by simp

end
